theory Spec2Isabelle
  imports Main
begin

section \<open>Python strings\<close>

text \<open>
  A Python \<open>str\<close> is modelled as a HOL \<open>string\<close> whose characters are the code
  points below U+0100, so that \<open>CHR 0xB1\<close> is the plus-minus sign that occurs in
  one of the section patterns.  The character classes below are the ones
  CPython uses on that range.
\<close>

definition code_point :: "char \<Rightarrow> nat" where
  "code_point c = of_char c"

definition in_range :: "nat \<Rightarrow> nat \<Rightarrow> char \<Rightarrow> bool" where
  "in_range lo hi c = (lo \<le> code_point c \<and> code_point c \<le> hi)"

definition newline :: char where
  "newline = CHR 0x0A"

definition isspace :: "char \<Rightarrow> bool" where
  "isspace c = (in_range 9 13 c \<or> in_range 28 32 c \<or> code_point c = 133 \<or> code_point c = 160)"

definition is_upper_char :: "char \<Rightarrow> bool" where
  "is_upper_char c = (in_range 65 90 c \<or> (in_range 192 222 c \<and> code_point c \<noteq> 215))"

definition is_lower_char :: "char \<Rightarrow> bool" where
  "is_lower_char c = (in_range 97 122 c \<or> code_point c = 170 \<or> code_point c = 181
     \<or> code_point c = 186 \<or> (in_range 223 255 c \<and> code_point c \<noteq> 247))"

definition lower_char :: "char \<Rightarrow> char" where
  "lower_char c = (if is_upper_char c then char_of (code_point c + 32) else c)"

text \<open>\<open>s.strip()\<close>, \<open>s.lower()\<close>, \<open>s.startswith(p)\<close>, \<open>s.endswith(p)\<close>.\<close>

definition lstrip :: "string \<Rightarrow> string" where
  "lstrip s = dropWhile isspace s"

definition rstrip :: "string \<Rightarrow> string" where
  "rstrip s = rev (dropWhile isspace (rev s))"

definition strip :: "string \<Rightarrow> string" where
  "strip s = rstrip (lstrip s)"

definition lower :: "string \<Rightarrow> string" where
  "lower s = map lower_char s"

definition startswith :: "string \<Rightarrow> string \<Rightarrow> bool" where
  "startswith s p = (take (length p) s = p)"

definition endswith :: "string \<Rightarrow> string \<Rightarrow> bool" where
  "endswith s p = (length p \<le> length s \<and> drop (length s - length p) s = p)"

text \<open>\<open>sub in s\<close>: \<open>sub\<close> occurs in \<open>s\<close> as a contiguous block.\<close>

fun str_contains :: "string \<Rightarrow> string \<Rightarrow> bool" where
  "str_contains sub [] = (sub = [])"
| "str_contains sub (c # cs) = (startswith (c # cs) sub \<or> str_contains sub cs)"

text \<open>
  \<open>s.isupper()\<close>: no lower-case character and at least one upper-case one.
  \<open>s.istitle()\<close>: CPython's scan, where an upper-case character may only follow
  an uncased one and a lower-case character only a cased one.
\<close>

definition isupper :: "string \<Rightarrow> bool" where
  "isupper s = ((\<forall>c \<in> set s. \<not> is_lower_char c) \<and> (\<exists>c \<in> set s. is_upper_char c))"

fun istitle_scan :: "string \<Rightarrow> bool \<Rightarrow> bool \<Rightarrow> bool" where
  "istitle_scan [] previous_is_cased cased = cased"
| "istitle_scan (c # cs) previous_is_cased cased =
     (if is_upper_char c then
        (if previous_is_cased then False else istitle_scan cs True True)
      else if is_lower_char c then
        (if \<not> previous_is_cased then False else istitle_scan cs True True)
      else istitle_scan cs False cased)"

definition istitle :: "string \<Rightarrow> bool" where
  "istitle s = istitle_scan s False False"

text \<open>\<open>s.split()\<close>: the maximal runs of non-whitespace characters.\<close>

fun split_scan :: "string \<Rightarrow> string \<Rightarrow> string list" where
  "split_scan [] word = (if word = [] then [] else [word])"
| "split_scan (c # cs) word =
     (if isspace c then (if word = [] then split_scan cs [] else word # split_scan cs [])
      else split_scan cs (word @ [c]))"

definition split :: "string \<Rightarrow> string list" where
  "split s = split_scan s []"

text \<open>\<open>s.find(c)\<close> for a one-character needle: the first index, or \<open>-1\<close>.\<close>

fun find_from :: "char \<Rightarrow> string \<Rightarrow> int \<Rightarrow> int" where
  "find_from c [] i = -1"
| "find_from c (x # xs) i = (if x = c then i else find_from c xs (i + 1))"

definition find :: "string \<Rightarrow> char \<Rightarrow> int" where
  "find s c = find_from c s 0"

section \<open>Regular expressions\<close>

text \<open>
  The patterns of the parser are regular expressions over character classes.
  \<open>re.match\<close> of a pattern \<open>^r$\<close> succeeds exactly when the text, or the text
  without one final newline, belongs to the language of \<open>r\<close>; membership is
  decided by derivatives.
\<close>

datatype rexp =
    Nothing
  | Empty
  | Cls "char \<Rightarrow> bool"
  | Alt rexp rexp
  | Seq rexp rexp
  | Star rexp

fun nullable :: "rexp \<Rightarrow> bool" where
  "nullable Nothing = False"
| "nullable Empty = True"
| "nullable (Cls p) = False"
| "nullable (Alt r s) = (nullable r \<or> nullable s)"
| "nullable (Seq r s) = (nullable r \<and> nullable s)"
| "nullable (Star r) = True"

text \<open>Sequence and alternative, with the empty language and the empty word absorbed.\<close>

fun alt :: "rexp \<Rightarrow> rexp \<Rightarrow> rexp" where
  "alt Nothing s = s"
| "alt r Nothing = r"
| "alt r s = Alt r s"

fun seq :: "rexp \<Rightarrow> rexp \<Rightarrow> rexp" where
  "seq Nothing s = Nothing"
| "seq Empty s = s"
| "seq r s = Seq r s"

fun deriv :: "char \<Rightarrow> rexp \<Rightarrow> rexp" where
  "deriv c Nothing = Nothing"
| "deriv c Empty = Nothing"
| "deriv c (Cls p) = (if p c then Empty else Nothing)"
| "deriv c (Alt r s) = alt (deriv c r) (deriv c s)"
| "deriv c (Seq r s) =
     (if nullable r then alt (seq (deriv c r) s) (deriv c s) else seq (deriv c r) s)"
| "deriv c (Star r) = seq (deriv c r) (Star r)"

fun accepts :: "rexp \<Rightarrow> string \<Rightarrow> bool" where
  "accepts r [] = nullable r"
| "accepts r (c # cs) = accepts (deriv c r) cs"

definition lit :: "string \<Rightarrow> rexp" where
  "lit s = foldr (\<lambda>c r. Seq (Cls (\<lambda>x. x = c)) r) s Empty"

definition plus :: "rexp \<Rightarrow> rexp" where
  "plus r = Seq r (Star r)"

definition alts :: "rexp list \<Rightarrow> rexp" where
  "alts rs = foldr Alt rs Nothing"

definition re_match_anchored :: "rexp \<Rightarrow> string \<Rightarrow> bool" where
  "re_match_anchored r text = accepts (Seq r (Alt Empty (Cls (\<lambda>c. c = newline)))) text"

section \<open>Field model\<close>

record template_field =
  name :: string
  description :: string
  section_of :: string

definition TemplateField :: "string \<Rightarrow> string \<Rightarrow> string \<Rightarrow> template_field" where
  "TemplateField n d s = \<lparr>name = strip n, description = strip d, section_of = strip s\<rparr>"

definition get_field_names :: "template_field list \<Rightarrow> string list" where
  "get_field_names field_list = map name field_list"

datatype error =
    FileNotFoundError string
  | ValueError string
  | IndexError
  | KeyError string
  | TypeError
  | JSONDecodeError
  | InvalidIndexError
  | OSError

section \<open>Word templates\<close>

text \<open>
  A loaded document is the list of its paragraph texts and the list of its
  tables, a table being its rows and a row its cell texts.
\<close>

record document =
  paragraphs :: "string list"
  tables :: "string list list list"

definition cls_AZ :: rexp where
  "cls_AZ = Cls (in_range 65 90)"

definition cls_letter_space :: rexp where
  "cls_letter_space = Cls (\<lambda>c. in_range 65 90 c \<or> in_range 97 122 c \<or> isspace c)"

definition cls_qualifier :: rexp where
  "cls_qualifier = Cls (\<lambda>c. in_range 65 90 c \<or> in_range 97 122 c \<or> isspace c
     \<or> c = CHR '':'' \<or> c = CHR 0xB1)"

definition SECTION_PATTERNS :: "rexp list" where
  "SECTION_PATTERNS =
    [Seq cls_AZ (Seq (plus cls_letter_space)
       (alts [lit ''Details'', lit ''Characteristics'', lit ''Outcomes'',
              lit ''Identification'', lit ''Information''])),
     Seq cls_AZ (Seq (plus cls_letter_space)
       (Seq (lit ''('') (Seq (plus cls_qualifier) (lit '')''))))]"

text \<open>
  \<open>FIELD_PATTERN\<close> is \<open>^(.+?):\s*(.*)$\<close>.  The lazy first group grows one
  character at a time (never over a newline) and stops at the first colon after
  which the rest matches \<open>\s*(.*)$\<close>; the result is the pair of the two groups.
\<close>

definition field_tail :: "string \<Rightarrow> string option" where
  "field_tail rest =
     (let r = dropWhile isspace rest;
          d = takeWhile (\<lambda>c. c \<noteq> newline) r;
          rem = dropWhile (\<lambda>c. c \<noteq> newline) r
      in if rem = [] \<or> rem = [newline] then Some d else None)"

fun field_head :: "string \<Rightarrow> string \<Rightarrow> (string \<times> string) option" where
  "field_head g1 [] = None"
| "field_head g1 (c # cs) =
     (case (if c = CHR '':'' then field_tail cs else None) of
        Some g2 \<Rightarrow> Some (g1, g2)
      | None \<Rightarrow> if c = newline then None else field_head (g1 @ [c]) cs)"

definition re_match_FIELD_PATTERN :: "string \<Rightarrow> (string \<times> string) option" where
  "re_match_FIELD_PATTERN text =
     (case text of
        [] \<Rightarrow> None
      | c # cs \<Rightarrow> if c = newline then None else field_head [c] cs)"

definition is_section_header :: "string \<Rightarrow> bool" where
  "is_section_header text =
     (if endswith text '':'' then False
      else if list_ex (\<lambda>pattern. re_match_anchored pattern text) SECTION_PATTERNS then True
      else if isupper text \<or> (istitle text \<and> length (split text) \<le> 6) then True
      else False)"

definition title_keywords :: "string list" where
  "title_keywords = [''template'', ''data extraction'', ''meta-analysis'']"

definition is_likely_title :: "string \<Rightarrow> bool" where
  "is_likely_title text = list_ex (\<lambda>keyword. str_contains keyword (lower text)) title_keywords"

text \<open>One round of the paragraph loop, on the field list and the current section.\<close>

definition paragraph_step ::
  "string \<Rightarrow> template_field list \<times> string \<Rightarrow> template_field list \<times> string" where
  "paragraph_step para st =
     (let field_list = fst st; current_section = snd st; text = strip para in
      if text = [] then st
      else if is_section_header text then (field_list, text)
      else (case re_match_FIELD_PATTERN text of
              None \<Rightarrow> st
            | Some (g1, g2) \<Rightarrow>
                (let field_name = strip g1; field_desc = strip g2 in
                 if is_likely_title field_name then st
                 else (field_list @ [TemplateField field_name field_desc current_section],
                       current_section))))"

fun paragraph_loop ::
  "string list \<Rightarrow> template_field list \<times> string \<Rightarrow> template_field list \<times> string" where
  "paragraph_loop [] st = st"
| "paragraph_loop (para # rest) st = paragraph_loop rest (paragraph_step para st)"

text \<open>
  The body of the row loop of \<open>_parse_table\<close>.  Reading \<open>row.cells[0]\<close> of a first
  row without cells raises \<open>IndexError\<close>.
\<close>

definition row_fields :: "string list \<Rightarrow> string \<Rightarrow> template_field list \<Rightarrow> template_field list" where
  "row_fields cells current_section field_list =
     (if length cells \<ge> 2 then
        (let field_name = strip (cells ! 0); field_desc = strip (cells ! 1) in
         if field_name \<noteq> [] \<and> \<not> is_likely_title field_name
         then field_list @ [TemplateField field_name field_desc current_section]
         else field_list)
      else field_list)"

definition parse_table_row ::
  "nat \<Rightarrow> string list \<Rightarrow> string \<Rightarrow> template_field list \<Rightarrow> error + template_field list" where
  "parse_table_row row_idx cells current_section field_list =
     (if row_idx = 0 then
        (case cells of
           [] \<Rightarrow> Inl IndexError
         | c0 # _ \<Rightarrow>
             (let first_cell = lower (strip c0) in
              if str_contains ''field'' first_cell \<or> str_contains ''column'' first_cell
              then Inr field_list
              else Inr (row_fields cells current_section field_list)))
      else Inr (row_fields cells current_section field_list))"

fun parse_table_rows ::
  "nat \<Rightarrow> string list list \<Rightarrow> string \<Rightarrow> template_field list \<Rightarrow> error + template_field list" where
  "parse_table_rows row_idx [] current_section field_list = Inr field_list"
| "parse_table_rows row_idx (cells # rest) current_section field_list =
     (case parse_table_row row_idx cells current_section field_list of
        Inl e \<Rightarrow> Inl e
      | Inr field_list' \<Rightarrow> parse_table_rows (Suc row_idx) rest current_section field_list')"

definition parse_table :: "string list list \<Rightarrow> string \<Rightarrow> error + template_field list" where
  "parse_table table current_section = parse_table_rows 0 table current_section []"

fun table_loop ::
  "string list list list \<Rightarrow> string \<Rightarrow> template_field list \<Rightarrow> error + template_field list" where
  "table_loop [] current_section field_list = Inr field_list"
| "table_loop (table # rest) current_section field_list =
     (case parse_table table current_section of
        Inl e \<Rightarrow> Inl e
      | Inr table_fields \<Rightarrow> table_loop rest current_section (field_list @ table_fields))"

definition parse_document :: "document \<Rightarrow> error + template_field list" where
  "parse_document doc =
     (let st = paragraph_loop (paragraphs doc) ([], []) in
      table_loop (tables doc) (snd st) (fst st))"

text \<open>
  The section that the specification gives to the fields of the tables: the last
  section header among the non-blank trimmed paragraphs, or the empty string.
\<close>

definition last_section_header :: "string list \<Rightarrow> string" where
  "last_section_header paras =
     (case rev (filter is_section_header (filter (\<lambda>t. t \<noteq> []) (map strip paras))) of
        [] \<Rightarrow> []
      | h # _ \<Rightarrow> h)"

section \<open>Excel templates\<close>

text \<open>
  A loaded workbook is the list of its sheets in \<open>sheet_names\<close> order, each with
  the labels of \<open>df.columns\<close>.  A label is a \<open>str\<close> or something else (a number
  or a date read from the header row).
\<close>

datatype col_label = Str string | NonStr

fun columns_loop ::
  "col_label list \<Rightarrow> string \<Rightarrow> template_field list \<Rightarrow> template_field list" where
  "columns_loop [] sheet_name field_list = field_list"
| "columns_loop (col # rest) sheet_name field_list =
     columns_loop rest sheet_name
       (case col of
          Str col_name \<Rightarrow>
            if \<not> startswith col_name ''Unnamed''
            then field_list @ [TemplateField col_name [] sheet_name]
            else field_list
        | NonStr \<Rightarrow> field_list)"

fun sheets_loop ::
  "(string \<times> col_label list) list \<Rightarrow> template_field list \<Rightarrow> template_field list" where
  "sheets_loop [] field_list = field_list"
| "sheets_loop ((sheet_name, cols) # rest) field_list =
     sheets_loop rest (columns_loop cols sheet_name field_list)"

definition parse_workbook :: "(string \<times> col_label list) list \<Rightarrow> template_field list" where
  "parse_workbook sheets = sheets_loop sheets []"

text \<open>
  The headers that pandas generates for the blank cells of a header row are the
  word \<open>Unnamed\<close>, a colon, a space and the index of the column.  The parser in
  the words of the specification turns every string header into a field except
  these.
\<close>

definition is_placeholder :: "string \<Rightarrow> bool" where
  "is_placeholder h =
     (startswith h ''Unnamed: '' \<and> drop 9 h \<noteq> [] \<and> list_all (in_range 48 57) (drop 9 h))"

definition spec_parse_workbook :: "(string \<times> col_label list) list \<Rightarrow> template_field list" where
  "spec_parse_workbook sheets =
     concat (map (\<lambda>(sheet_name, cols). map (\<lambda>h. TemplateField h [] sheet_name)
                    [h. Str h \<leftarrow> cols, \<not> is_placeholder h]) sheets)"

section \<open>Format detection and the parsing facade\<close>

text \<open>
  What the code asks of its platform: the separators of \<open>os.path\<close> (\<open>/\<close>, and
  also the backslash on Windows), \<open>os.path.exists\<close>, and the two loaders
  \<open>docx.Document\<close> and \<open>pd.ExcelFile\<close> with \<open>pd.read_excel\<close>, which either raise
  or deliver the loaded template.
\<close>

record platform =
  path_seps :: string
  os_path_exists :: "string \<Rightarrow> bool"
  docx_Document :: "string \<Rightarrow> error + document"
  pd_ExcelFile :: "string \<Rightarrow> error + (string \<times> col_label list) list"

text \<open>\<open>rfind\<close>: the last index at which the predicate holds, or \<open>-1\<close>.\<close>

fun rfind_scan :: "(char \<Rightarrow> bool) \<Rightarrow> string \<Rightarrow> int \<Rightarrow> int \<Rightarrow> int" where
  "rfind_scan p [] i found = found"
| "rfind_scan p (x # xs) i found = rfind_scan p xs (i + 1) (if p x then i else found)"

definition rfind :: "string \<Rightarrow> (char \<Rightarrow> bool) \<Rightarrow> int" where
  "rfind s p = rfind_scan p s 0 (-1)"

text \<open>
  \<open>os.path.splitext\<close>: the extension starts at the last dot of the last path
  component, unless that component has nothing but dots before it.
\<close>

definition splitext :: "string \<Rightarrow> string \<Rightarrow> string \<times> string" where
  "splitext seps p =
     (let sepIndex = rfind p (\<lambda>c. c \<in> set seps);
          dotIndex = rfind p (\<lambda>c. c = CHR ''.'')
      in if dotIndex > sepIndex \<and>
            list_ex (\<lambda>c. c \<noteq> CHR ''.'')
              (take (nat (dotIndex - (sepIndex + 1))) (drop (nat (sepIndex + 1)) p))
         then (take (nat dotIndex) p, drop (nat dotIndex) p)
         else (p, []))"

definition detect_template_format :: "platform \<Rightarrow> string \<Rightarrow> string option" where
  "detect_template_format env filepath =
     (let ext = lower (snd (splitext (path_seps env) filepath)) in
      if ext = ''.docx'' then Some ''word''
      else if ext \<in> set [''.xlsx'', ''.xls''] then Some ''excel''
      else None)"

definition WordTemplateParser_parse :: "platform \<Rightarrow> string \<Rightarrow> error + template_field list" where
  "WordTemplateParser_parse env filepath =
     (case docx_Document env filepath of
        Inl e \<Rightarrow> Inl e
      | Inr doc \<Rightarrow> parse_document doc)"

definition ExcelTemplateParser_parse :: "platform \<Rightarrow> string \<Rightarrow> error + template_field list" where
  "ExcelTemplateParser_parse env filepath =
     (case pd_ExcelFile env filepath of
        Inl e \<Rightarrow> Inl e
      | Inr sheets \<Rightarrow> Inr (parse_workbook sheets))"

datatype parser = WordTemplateParser | ExcelTemplateParser

fun parser_parse :: "parser \<Rightarrow> platform \<Rightarrow> string \<Rightarrow> error + template_field list" where
  "parser_parse WordTemplateParser env filepath = WordTemplateParser_parse env filepath"
| "parser_parse ExcelTemplateParser env filepath = ExcelTemplateParser_parse env filepath"

definition parse_template :: "platform \<Rightarrow> string \<Rightarrow> error + template_field list" where
  "parse_template env filepath =
     (if \<not> os_path_exists env filepath
      then Inl (FileNotFoundError (''Template file not found: '' @ filepath))
      else
        (let format_type = detect_template_format env filepath in
         case (if format_type = Some ''word'' then Inr WordTemplateParser
               else if format_type = Some ''excel'' then Inr ExcelTemplateParser
               else Inl (ValueError (''Unsupported template format: '' @ filepath))) of
           Inl e \<Rightarrow> Inl e
         | Inr parser \<Rightarrow>
             (case parser_parse parser env filepath of
                Inl e \<Rightarrow> Inl e
              | Inr field_list \<Rightarrow>
                  if field_list = []
                  then Inl (ValueError (''No fields found in template: '' @ filepath))
                  else Inr field_list)))"

section \<open>Prompt synthesis\<close>

text \<open>
  The module globals set by \<open>load_template\<close>; \<open>None\<close> until a template is loaded.
\<close>

record globals =
  TEMPLATE_FIELDS :: "template_field list option"
  ALL_COLUMNS :: "string list option"

definition load_template :: "platform \<Rightarrow> string \<Rightarrow> globals \<Rightarrow> error + globals" where
  "load_template env template_path g =
     (case parse_template env template_path of
        Inl e \<Rightarrow> Inl e
      | Inr field_list \<Rightarrow>
          Inr (g\<lparr>TEMPLATE_FIELDS := Some field_list,
                 ALL_COLUMNS := Some (get_field_names field_list)\<rparr>))"

text \<open>
  The dictionary \<open>sections\<close> keeps its keys in insertion order: an association
  list whose keys are distinct.  \<open>dict_append\<close> is \<open>sections[k].append(field)\<close>.
\<close>

fun dict_append ::
  "string \<Rightarrow> template_field \<Rightarrow> (string \<times> template_field list) list
     \<Rightarrow> (string \<times> template_field list) list" where
  "dict_append k field [] = []"
| "dict_append k field ((k', l) # rest) =
     (if k' = k then (k', l @ [field]) # rest else (k', l) # dict_append k field rest)"

fun group_by_section ::
  "template_field list \<Rightarrow> (string \<times> template_field list) list
     \<Rightarrow> (string \<times> template_field list) list" where
  "group_by_section [] sections = sections"
| "group_by_section (field # rest) sections =
     (let section = (if section_of field \<noteq> [] then section_of field else ''General'');
          sections1 = (if section \<notin> set (map fst sections)
                       then sections @ [(section, [])] else sections)
      in group_by_section rest (dict_append section field sections1))"

text \<open>The loops that write the sections, in the API and in the browser front end.\<close>

fun bullets_loop_api :: "template_field list \<Rightarrow> string \<Rightarrow> string" where
  "bullets_loop_api [] prompt = prompt"
| "bullets_loop_api (field # rest) prompt =
     (let desc = (if description field \<noteq> [] then '': '' @ description field else [])
      in bullets_loop_api rest (prompt @ ''- '' @ name field @ desc @ [newline]))"

fun sections_loop_api :: "(string \<times> template_field list) list \<Rightarrow> string \<Rightarrow> string" where
  "sections_loop_api [] prompt = prompt"
| "sections_loop_api ((section_name, fs) # rest) prompt =
     sections_loop_api rest
       (bullets_loop_api fs (prompt @ ''--- '' @ section_name @ '' ---'' @ [newline]))"

fun bullets_loop_browser :: "template_field list \<Rightarrow> string \<Rightarrow> string" where
  "bullets_loop_browser [] prompt = prompt"
| "bullets_loop_browser (field # rest) prompt =
     bullets_loop_browser rest
       (if description field \<noteq> []
        then prompt @ ''- '' @ name field @ '': '' @ description field @ [newline]
        else prompt @ ''- '' @ name field @ [newline])"

fun sections_loop_browser :: "(string \<times> template_field list) list \<Rightarrow> string \<Rightarrow> string" where
  "sections_loop_browser [] prompt = prompt"
| "sections_loop_browser ((section_name, fs) # rest) prompt =
     sections_loop_browser rest
       (bullets_loop_browser fs (prompt @ ''--- '' @ section_name @ '' ---'' @ [newline])
          @ [newline])"

definition api_preamble :: string where
  "api_preamble =
     ''You are an expert scientific researcher. Extract the following information from the attached PDF study.''
     @ [newline]
     @ ''Return the result as a valid JSON object where keys are the 'Field Name' and values are the extracted text/numbers. If information is strictly missing, use null.''
     @ [newline]
     @ ''Do not hallucinate data. If you are unsure, extraction is better left as null.''
     @ [newline, newline]"

definition api_closing :: string where
  "api_closing = [newline]
     @ ''Return ONLY the JSON object. No markdown formatting (like ```json), no preamble.''"

definition browser_preamble :: string where
  "browser_preamble =
     ''Extract the following information from the attached PDF. Return the result as a valid JSON object where keys are the 'Field Name' and values are the extracted text. If information is missing, use null.''
     @ [newline, newline]"

definition browser_closing :: string where
  "browser_closing = [newline]
     @ ''CRUCIAL: Verify the extracted data against the PDF one more time before outputting to ensure accuracy. Return ONLY the JSON object, no markdown formatting.''"

definition not_loaded :: error where
  "not_loaded = ValueError ''Template not loaded. Call load_template() first.''"

text \<open>\<open>create_prompt\<close> of \<open>gemini_api_extractor.py\<close>.\<close>

definition create_prompt_api :: "globals \<Rightarrow> error + string" where
  "create_prompt_api g =
     (case TEMPLATE_FIELDS g of
        None \<Rightarrow> Inl not_loaded
      | Some field_list \<Rightarrow>
          (let prompt = api_preamble;
               sections = group_by_section field_list [];
               prompt = sections_loop_api sections prompt
           in Inr (prompt @ api_closing)))"

text \<open>\<open>create_prompt\<close> of \<open>gemini_extractor.py\<close>.\<close>

definition create_prompt_browser :: "globals \<Rightarrow> error + string" where
  "create_prompt_browser g =
     (case TEMPLATE_FIELDS g of
        None \<Rightarrow> Inl not_loaded
      | Some field_list \<Rightarrow>
          (let prompt = browser_preamble;
               sections = group_by_section field_list [];
               prompt = sections_loop_browser sections prompt
           in Inr (prompt @ browser_closing)))"

text \<open>
  The rendering in the words of the specification: the distinct section labels
  in the order of their first occurrence, the empty label read as General, each
  with its banner and one bullet per field of that section in the original
  order; a bullet is the name alone when the description is empty, and the name,
  a colon and the description otherwise.
\<close>

fun first_occurrences :: "string list \<Rightarrow> string list \<Rightarrow> string list" where
  "first_occurrences seen [] = []"
| "first_occurrences seen (x # xs) =
     (if x \<in> set seen then first_occurrences seen xs
      else x # first_occurrences (seen @ [x]) xs)"

definition spec_label :: "template_field \<Rightarrow> string" where
  "spec_label f = (if section_of f = [] then ''General'' else section_of f)"

definition spec_bullet :: "template_field \<Rightarrow> string" where
  "spec_bullet f =
     (if description f = [] then ''- '' @ name f @ [newline]
      else ''- '' @ name f @ '': '' @ description f @ [newline])"

definition spec_sections :: "template_field list \<Rightarrow> string list" where
  "spec_sections field_list = first_occurrences [] (map spec_label field_list)"

definition spec_section_block :: "template_field list \<Rightarrow> string \<Rightarrow> string" where
  "spec_section_block field_list s =
     ''--- '' @ s @ '' ---'' @ [newline]
       @ concat (map spec_bullet (filter (\<lambda>f. spec_label f = s) field_list))"

section \<open>Response cleaning\<close>

definition fence :: string where
  "fence = [CHR 0x60, CHR 0x60, CHR 0x60]"

definition clean_json_string :: "string \<Rightarrow> string" where
  "clean_json_string response_text =
     (let text = strip response_text;
          text =
            (if startswith text fence then
               (let first_newline = find text newline;
                    text = (if first_newline \<noteq> -1
                            then drop (nat (first_newline + 1)) text else text);
                    text = (if endswith text fence
                            then take (length text - 3) text else text)
                in text)
             else text)
      in strip text)"

text \<open>
  The cleaning in the words of the specification, where dropping the first line
  removes everything up to and including the first line break (all of the text
  when it has a single line).
\<close>

definition drop_first_line :: "string \<Rightarrow> string" where
  "drop_first_line text = drop 1 (dropWhile (\<lambda>c. c \<noteq> newline) text)"

definition spec_clean :: "string \<Rightarrow> string" where
  "spec_clean response_text =
     (let text = strip response_text;
          text =
            (if startswith text fence then
               (let text = drop_first_line text in
                if endswith text fence then take (length text - 3) text else text)
             else text)
      in strip text)"

text \<open>
  The values \<open>json.loads\<close> returns; the payload of a \<open>float\<close> is left open.
  A \<open>dict\<close> keeps its keys in insertion order, and \<open>d[k] = v\<close> replaces the value
  of a key that is present and adds the key at the end otherwise.
\<close>

datatype 'f json =
    JNull
  | JBool bool
  | JInt int
  | JFloat 'f
  | JStr string
  | JList "'f json list"
  | JDict "(string \<times> 'f json) list"

fun dict_set :: "string \<Rightarrow> 'v \<Rightarrow> (string \<times> 'v) list \<Rightarrow> (string \<times> 'v) list" where
  "dict_set k v [] = [(k, v)]"
| "dict_set k v ((k', v') # rest) =
     (if k' = k then (k, v) # rest else (k', v') # dict_set k v rest)"

text \<open>
  The end of \<open>extract_study_with_api\<close>: clean, parse, add the source identifier.
  Item assignment on a list with a string key, or on a number, string, boolean
  or \<open>None\<close>, raises \<open>TypeError\<close>.  \<open>JSONDecodeError\<close> is caught by the inner handler
  and every other exception by the outer one; both return \<open>None\<close>.
\<close>

definition parse_response_body ::
  "(string \<Rightarrow> error + 'f json) \<Rightarrow> string \<Rightarrow> string \<Rightarrow> error + (string \<times> 'f json) list" where
  "parse_response_body json_loads basename response_text =
     (let text = clean_json_string response_text in
      case json_loads text of
        Inl e \<Rightarrow> Inl e
      | Inr (JDict d) \<Rightarrow> Inr (dict_set ''Source File'' (JStr basename) d)
      | Inr _ \<Rightarrow> Inl TypeError)"

definition parse_response ::
  "(string \<Rightarrow> error + 'f json) \<Rightarrow> string \<Rightarrow> string \<Rightarrow> (string \<times> 'f json) list option" where
  "parse_response json_loads basename response_text =
     (case parse_response_body json_loads basename response_text of
        Inl JSONDecodeError \<Rightarrow> None
      | Inl _ \<Rightarrow> None
      | Inr dat \<Rightarrow> Some dat)"

section \<open>Record reconciliation and the persisted table\<close>

text \<open>
  A data frame is its column labels and its rows, a row holding one cell per
  column; an empty cell (\<open>None\<close>, \<open>NaN\<close>) is \<open>JNull\<close>.  The operations are the ones
  \<open>main\<close> calls: \<open>pd.DataFrame([data])\<close>, \<open>c in df.columns\<close>, \<open>df[c] = None\<close>,
  \<open>df[cols]\<close>, which raises \<open>KeyError\<close> on a label that is not a column, and
  \<open>pd.concat([existing, df], ignore_index=True)\<close>, which puts the rows of the
  second frame beneath those of the first over the union of the columns,
  converts the cells to the dtype of their column, and refuses to reindex
  differing column lists when one of them repeats a label.
\<close>

record 'f dataframe =
  columns :: "string list"
  rows :: "'f json list list"

definition DataFrame :: "(string \<times> 'f json) list \<Rightarrow> 'f dataframe" where
  "DataFrame dat = \<lparr>columns = map fst dat, rows = [map snd dat]\<rparr>"

definition set_column_None :: "string \<Rightarrow> 'f dataframe \<Rightarrow> 'f dataframe" where
  "set_column_None c df =
     (if c \<in> set (columns df)
      then df\<lparr>rows := map (\<lambda>r. map (\<lambda>(k, v). if k = c then JNull else v) (zip (columns df) r))
                          (rows df)\<rparr>
      else \<lparr>columns = columns df @ [c], rows = map (\<lambda>r. r @ [JNull]) (rows df)\<rparr>)"

definition cells_of :: "string list \<Rightarrow> 'f json list \<Rightarrow> string \<Rightarrow> 'f json list" where
  "cells_of cols r c = map snd (filter (\<lambda>(k, v). k = c) (zip cols r))"

definition select_columns :: "string list \<Rightarrow> 'f dataframe \<Rightarrow> error + 'f dataframe" where
  "select_columns cols df =
     (case filter (\<lambda>c. c \<notin> set (columns df)) cols of
        missing # _ \<Rightarrow> Inl (KeyError missing)
      | [] \<Rightarrow>
          Inr \<lparr>columns = concat (map (\<lambda>c. filter (\<lambda>k. k = c) (columns df)) cols),
               rows = map (\<lambda>r. concat (map (cells_of (columns df) r) cols)) (rows df)\<rparr>)"




text \<open>
  The alignment of one extracted record with the template columns, as both
  front ends do it before saving.
\<close>

fun ensure_columns :: "string list \<Rightarrow> 'f dataframe \<Rightarrow> 'f dataframe" where
  "ensure_columns [] df = df"
| "ensure_columns (c # rest) df =
     ensure_columns rest (if c \<notin> set (columns df) then set_column_None c df else df)"

definition reconcile :: "string list \<Rightarrow> (string \<times> 'f json) list \<Rightarrow> error + 'f dataframe" where
  "reconcile all_columns dat =
     (let df = DataFrame dat;
          df = ensure_columns all_columns df;
          cols = ''Source File'' # filter (\<lambda>c. c \<in> set (columns df)) all_columns
      in select_columns cols df)"













section \<open>Sample inputs\<close>

definition sample_document :: document where
  "sample_document =
     \<lparr>paragraphs = [''GLP1 Data Extraction Template: v1'', ''Study Details'',
                    ''Author: first author'', [], ''Year:''],
      tables = [[[''Field Name'', ''Description''], [''Outcome Details''],
                 [''Dose'', ''mg per week''], [''Template version'', ''x'']]]\<rparr>"

definition sample_fields :: "template_field list" where
  "sample_fields =
     [\<lparr>name = ''Author'', description = ''first author'', section_of = ''Study Details''\<rparr>,
      \<lparr>name = ''Year'', description = [], section_of = ''Study Details''\<rparr>,
      \<lparr>name = ''Dose'', description = ''mg per week'', section_of = ''Study Details''\<rparr>]"

definition sample_general :: "template_field list" where
  "sample_general =
     [\<lparr>name = ''Notes'', description = [], section_of = []\<rparr>,
      \<lparr>name = ''Dose'', description = ''again'', section_of = ''General''\<rparr>]"

definition blank_document :: document where
  "blank_document = \<lparr>paragraphs = [''My Data Extraction Template'', [], ''  ''], tables = []\<rparr>"

definition sample_workbook :: "(string \<times> col_label list) list" where
  "sample_workbook =
     [(''S1'', [Str ''A'', NonStr, Str ''Unnamed: 2'', Str ''B'']), (''S2'', [Str ''C''])]"

definition sample_platform :: platform where
  "sample_platform =
     \<lparr>path_seps = ''/'',
      os_path_exists = (\<lambda>p. p \<in> set [''in/t.docx'', ''blank.DOCX'', ''t.xlsx'', ''notes.txt'']),
      docx_Document = (\<lambda>p. if p = ''in/t.docx'' then Inr sample_document
                            else if p = ''blank.DOCX'' then Inr blank_document
                            else Inl OSError),
      pd_ExcelFile = (\<lambda>p. if p = ''t.xlsx'' then Inr sample_workbook else Inl OSError)\<rparr>"

definition sample_record :: "(string \<times> unit json) list" where
  "sample_record = [(''X'', JStr ''1''), (''W'', JStr ''ignored''), (''Source File'', JStr ''doc1'')]"






text \<open>
  A platform with two Word files that cannot be parsed: one is not a Word
  package, so that the loader raises, and one has a table whose first row has
  no cells.
\<close>

definition faulty_platform :: platform where
  "faulty_platform =
     \<lparr>path_seps = ''/'',
      os_path_exists = (\<lambda>p. p \<in> set [''bad.docx'', ''rowless.docx'']),
      docx_Document = (\<lambda>p. if p = ''rowless.docx''
                            then Inr \<lparr>paragraphs = [''Age: years''], tables = [[[]]]\<rparr>
                            else Inl OSError),
      pd_ExcelFile = (\<lambda>p. Inl OSError)\<rparr>"

definition json_example :: string where
  "json_example = ''{'' @ [CHR 0x22] @ ''a'' @ [CHR 0x22] @ '':1}''"

definition fenced_example :: string where
  "fenced_example = fence @ ''json'' @ [newline] @ json_example @ [newline] @ fence"

definition sample_loads :: "string \<Rightarrow> error + unit json" where
  "sample_loads text =
     (if text = json_example then Inr (JDict [(''a'', JInt 1)]) else Inl JSONDecodeError)"

section \<open>Trimming\<close>

lemma rstrip_decomp: "\<exists>r. s = rstrip s @ r \<and> (\<forall>c \<in> set r. isspace c)"
proof -
  have "rev s = takeWhile isspace (rev s) @ dropWhile isspace (rev s)" by simp
  then have "s = rev (dropWhile isspace (rev s)) @ rev (takeWhile isspace (rev s))"
    by (metis rev_append rev_rev_ident)
  moreover have "\<forall>c \<in> set (rev (takeWhile isspace (rev s))). isspace c"
    by (auto dest: set_takeWhileD)
  ultimately show ?thesis unfolding rstrip_def by blast
qed

lemma rstrip_last: "rstrip s \<noteq> [] \<Longrightarrow> \<not> isspace (last (rstrip s))"
  unfolding rstrip_def by (metis hd_dropWhile last_rev rev_is_Nil_conv)

lemma rstrip_id: "s = [] \<or> \<not> isspace (last s) \<Longrightarrow> rstrip s = s"
  unfolding rstrip_def by (cases s rule: rev_cases) auto

lemma lstrip_id: "s = [] \<or> \<not> isspace (hd s) \<Longrightarrow> lstrip s = s"
  unfolding lstrip_def by (cases s) auto

lemma lstrip_hd: "lstrip s \<noteq> [] \<Longrightarrow> \<not> isspace (hd (lstrip s))"
  unfolding lstrip_def by (metis hd_dropWhile)

lemma rstrip_hd: "rstrip s \<noteq> [] \<Longrightarrow> hd (rstrip s) = hd s"
  using rstrip_decomp [of s] by (metis hd_append2)

lemma strip_hd: "strip s \<noteq> [] \<Longrightarrow> \<not> isspace (hd (strip s))"
  unfolding strip_def by (metis lstrip_hd rstrip_hd rstrip_def dropWhile.simps(1) rev.simps(1))

lemma strip_last: "strip s \<noteq> [] \<Longrightarrow> \<not> isspace (last (strip s))"
  unfolding strip_def by (rule rstrip_last)

lemma strip_Nil: "strip [] = []"
  by (simp add: strip_def lstrip_def rstrip_def)

lemma strip_idem: "strip (strip s) = strip s"
proof (cases "strip s = []")
  case True
  then show ?thesis by (simp add: strip_Nil)
next
  case False
  then have "lstrip (strip s) = strip s" by (simp add: lstrip_id strip_hd)
  moreover have "rstrip (strip s) = strip s" using False by (simp add: rstrip_id strip_last)
  ultimately show ?thesis by (simp add: strip_def)
qed

lemma strip_nonempty: "s \<noteq> [] \<Longrightarrow> \<not> isspace (hd s) \<Longrightarrow> strip s \<noteq> []"
proof -
  assume ne: "s \<noteq> []" and h: "\<not> isspace (hd s)"
  then have l: "lstrip s = s" by (simp add: lstrip_id)
  obtain r where r: "s = rstrip s @ r" "\<forall>c \<in> set r. isspace c"
    using rstrip_decomp by blast
  have "rstrip s \<noteq> []"
  proof
    assume "rstrip s = []"
    with r have "\<forall>c \<in> set s. isspace c" by simp
    with ne h show False by (simp add: hd_in_set)
  qed
  with l show ?thesis by (simp add: strip_def)
qed

lemma name_TemplateField: "name (TemplateField n d s) = strip n"
  by (simp add: TemplateField_def)

lemma section_TemplateField: "section_of (TemplateField n d s) = strip s"
  by (simp add: TemplateField_def)

lemma str_contains_iff: "str_contains sub s \<longleftrightarrow> (\<exists>pre suf. s = pre @ sub @ suf)"
proof (induction s)
  case Nil
  then show ?case by auto
next
  case (Cons c cs)
  have "startswith (c # cs) sub \<longleftrightarrow> (\<exists>suf. c # cs = sub @ suf)"
    unfolding startswith_def by (metis append_eq_conv_conj append_take_drop_id)
  moreover have "(\<exists>pre suf. c # cs = pre @ sub @ suf) \<longleftrightarrow>
     (\<exists>suf. c # cs = sub @ suf) \<or> (\<exists>pre suf. cs = pre @ sub @ suf)"
    by (metis append_Nil append_Cons list.sel(3) tl_append2 neq_Nil_conv)
  ultimately show ?case using Cons.IH by simp
qed

section \<open>The section-header classifier\<close>

text \<open>
  Claim C3.  A line that ends with a colon is never classified as a section
  header, whatever else holds of it: the colon test comes first and decides.
\<close>

theorem section_header_colon_priority:
  "endswith text '':'' \<Longrightarrow> \<not> is_section_header text"
  by (simp add: is_section_header_def)

text \<open>
  An upper-case line and a title-case line of two words that matches the first
  shape pattern, each with a final colon; without the colon the second one is a
  header.
\<close>

theorem section_header_colon_priority_witness:
  "endswith ''RESULTS:'' '':'' \<and> isupper ''RESULTS:'' \<and> \<not> is_section_header ''RESULTS:''
   \<and> endswith ''Study Details:'' '':'' \<and> istitle ''Study Details:''
   \<and> \<not> is_section_header ''Study Details:'' \<and> is_section_header ''Study Details''"
proof -
  have a: "endswith ''RESULTS:'' '':''" and b: "endswith ''Study Details:'' '':''"
    by (simp_all add: endswith_def)
  have c: "isupper ''RESULTS:''" by code_simp
  have d: "istitle ''Study Details:''" by code_simp
  have e: "is_section_header ''Study Details''" by code_simp
  show ?thesis
    using a b c d e section_header_colon_priority [OF a] section_header_colon_priority [OF b]
    by simp
qed

section \<open>The parsing facade\<close>

lemma detect_template_format_cases:
  "detect_template_format env p = None \<or> detect_template_format env p = Some ''word''
   \<or> detect_template_format env p = Some ''excel''"
  by (simp add: detect_template_format_def Let_def)

text \<open>
  Claim C1, as amended.  \<open>parse_template\<close> fails with \<open>FileNotFoundError\<close> on a
  path that does not exist; otherwise with the unsupported-format \<open>ValueError\<close>
  when the detector finds no format; otherwise it runs the Word or the Excel
  parser, the only formats there are: an exception of the loader or of the
  parser leaves the facade unchanged, an empty field list makes it fail with the
  no-fields \<open>ValueError\<close>, and a list that is not empty is returned.  A success
  never carries an empty list.
\<close>

theorem parse_template_facade:
  "(\<not> os_path_exists env p \<longrightarrow>
      parse_template env p = Inl (FileNotFoundError (''Template file not found: '' @ p)))
 \<and> (os_path_exists env p \<and> detect_template_format env p = None \<longrightarrow>
      parse_template env p = Inl (ValueError (''Unsupported template format: '' @ p)))
 \<and> (os_path_exists env p \<and> detect_template_format env p = Some ''word'' \<longrightarrow>
      parse_template env p =
        (case WordTemplateParser_parse env p of
           Inl e \<Rightarrow> Inl e
         | Inr fs \<Rightarrow> if fs = [] then Inl (ValueError (''No fields found in template: '' @ p))
                    else Inr fs))
 \<and> (os_path_exists env p \<and> detect_template_format env p = Some ''excel'' \<longrightarrow>
      parse_template env p =
        (case ExcelTemplateParser_parse env p of
           Inl e \<Rightarrow> Inl e
         | Inr fs \<Rightarrow> if fs = [] then Inl (ValueError (''No fields found in template: '' @ p))
                    else Inr fs))
 \<and> detect_template_format env p \<in> {None, Some ''word'', Some ''excel''}
 \<and> (\<forall>fs'. parse_template env p = Inr fs' \<longrightarrow> fs' \<noteq> [])"
  using detect_template_format_cases [of env p]
  by (auto simp add: parse_template_def Let_def split: sum.splits if_splits)

lemma sample_platform_exists:
  "os_path_exists sample_platform p
     \<longleftrightarrow> p \<in> set [''in/t.docx'', ''blank.DOCX'', ''t.xlsx'', ''notes.txt'']"
  by (simp add: sample_platform_def)

lemma sample_formats:
  "detect_template_format sample_platform ''notes.txt'' = None"
  "detect_template_format sample_platform ''blank.DOCX'' = Some ''word''"
  "detect_template_format sample_platform ''t.xlsx'' = Some ''excel''"
  "detect_template_format faulty_platform ''rowless.docx'' = Some ''word''"
  by code_simp+

lemma sample_blank_parse: "WordTemplateParser_parse sample_platform ''blank.DOCX'' = Inr []"
  by code_simp

lemma sample_rowless_parse:
  "WordTemplateParser_parse faulty_platform ''rowless.docx'' = Inl IndexError"
  by code_simp

lemma sample_excel_parse:
  "ExcelTemplateParser_parse sample_platform ''t.xlsx'' =
     Inr [\<lparr>name = ''A'', description = [], section_of = ''S1''\<rparr>,
          \<lparr>name = ''B'', description = [], section_of = ''S1''\<rparr>,
          \<lparr>name = ''C'', description = [], section_of = ''S2''\<rparr>]"
  by code_simp

theorem parse_template_facade_witness:
  "parse_template sample_platform ''missing.docx''
     = Inl (FileNotFoundError ''Template file not found: missing.docx'')
 \<and> parse_template sample_platform ''notes.txt''
     = Inl (ValueError ''Unsupported template format: notes.txt'')
 \<and> parse_template sample_platform ''blank.DOCX''
     = Inl (ValueError ''No fields found in template: blank.DOCX'')
 \<and> parse_template faulty_platform ''rowless.docx'' = Inl IndexError
 \<and> parse_template sample_platform ''t.xlsx''
     = Inr [\<lparr>name = ''A'', description = [], section_of = ''S1''\<rparr>,
            \<lparr>name = ''B'', description = [], section_of = ''S1''\<rparr>,
            \<lparr>name = ''C'', description = [], section_of = ''S2''\<rparr>]"
proof -
  have x: "os_path_exists faulty_platform ''rowless.docx''"
    by (simp add: faulty_platform_def)
  from parse_template_facade [of sample_platform "''missing.docx''"]
  have 1: "parse_template sample_platform ''missing.docx''
     = Inl (FileNotFoundError ''Template file not found: missing.docx'')"
    by (simp add: sample_platform_exists)
  from parse_template_facade [of sample_platform "''notes.txt''"]
  have 2: "parse_template sample_platform ''notes.txt''
     = Inl (ValueError ''Unsupported template format: notes.txt'')"
    by (simp add: sample_platform_exists sample_formats)
  from parse_template_facade [of sample_platform "''blank.DOCX''"]
  have 3: "parse_template sample_platform ''blank.DOCX''
     = Inl (ValueError ''No fields found in template: blank.DOCX'')"
    by (simp add: sample_platform_exists sample_formats sample_blank_parse)
  from parse_template_facade [of faulty_platform "''rowless.docx''"] x
  have 4: "parse_template faulty_platform ''rowless.docx'' = Inl IndexError"
    by (simp add: sample_formats sample_rowless_parse)
  from parse_template_facade [of sample_platform "''t.xlsx''"]
  have 5: "parse_template sample_platform ''t.xlsx''
     = Inr [\<lparr>name = ''A'', description = [], section_of = ''S1''\<rparr>,
            \<lparr>name = ''B'', description = [], section_of = ''S1''\<rparr>,
            \<lparr>name = ''C'', description = [], section_of = ''S2''\<rparr>]"
    by (simp add: sample_platform_exists sample_formats sample_excel_parse)
  from 1 2 3 4 5 show ?thesis by blast
qed

text \<open>
  The claim as it is written fails on a file that exists and has the extension
  of a Word document but cannot be parsed: the outcome is neither one of the
  three failures of the claim nor a field list.  The first file is not a Word
  package; the second has a field in its paragraphs and a table whose first row
  has no cells.
\<close>

theorem parse_template_parser_error:
  "os_path_exists faulty_platform ''bad.docx''
 \<and> detect_template_format faulty_platform ''bad.docx'' = Some ''word''
 \<and> parse_template faulty_platform ''bad.docx'' = Inl OSError
 \<and> os_path_exists faulty_platform ''rowless.docx''
 \<and> parse_template faulty_platform ''rowless.docx'' = Inl IndexError"
  by code_simp

section \<open>The Word parser\<close>

text \<open>
  What holds of every field that the two passes emit: a property of all fields
  built from a non-blank trimmed name that passes the title filter.
\<close>

lemma field_head_hd:
  "field_head g1 cs = Some (a, b) \<Longrightarrow> g1 \<noteq> [] \<Longrightarrow> a \<noteq> [] \<and> hd a = hd g1"
  by (induction g1 cs rule: field_head.induct) (auto split: option.splits if_splits)

lemma re_match_FIELD_PATTERN_hd:
  "re_match_FIELD_PATTERN text = Some (a, b) \<Longrightarrow> a \<noteq> [] \<and> hd a = hd text"
  by (auto simp add: re_match_FIELD_PATTERN_def split: list.splits if_splits dest: field_head_hd)

lemma paragraph_step_fields:
  assumes new: "\<And>n d s. strip n \<noteq> [] \<Longrightarrow> \<not> is_likely_title (strip n)
                  \<Longrightarrow> P (TemplateField (strip n) d s)"
    and old: "\<forall>f \<in> set (fst st). P f"
  shows "\<forall>f \<in> set (fst (paragraph_step para st)). P f"
proof -
  {
    fix a b
    assume m: "re_match_FIELD_PATTERN (strip para) = Some (a, b)"
      and ne: "strip para \<noteq> []" and nt: "\<not> is_likely_title (strip a)"
    from m have "a \<noteq> []" "hd a = hd (strip para)"
      using re_match_FIELD_PATTERN_hd by blast+
    with ne have "strip a \<noteq> []" using strip_hd strip_nonempty by metis
    with nt have "P (TemplateField (strip a) (strip b) (snd st))" by (simp add: new)
  }
  with old show ?thesis
    by (auto simp add: paragraph_step_def Let_def split: option.splits prod.splits)
qed

lemma paragraph_loop_fields:
  assumes new: "\<And>n d s. strip n \<noteq> [] \<Longrightarrow> \<not> is_likely_title (strip n)
                  \<Longrightarrow> P (TemplateField (strip n) d s)"
  shows "\<forall>f \<in> set (fst st). P f \<Longrightarrow> \<forall>f \<in> set (fst (paragraph_loop ps st)). P f"
proof (induction ps arbitrary: st)
  case Nil
  then show ?case by simp
next
  case (Cons p ps)
  show ?case using Cons.IH [OF paragraph_step_fields [of P, OF new Cons.prems]] by simp
qed

lemma row_fields_fields:
  assumes new: "\<And>n d. strip n \<noteq> [] \<Longrightarrow> \<not> is_likely_title (strip n)
                  \<Longrightarrow> P (TemplateField (strip n) d sec)"
    and old: "\<forall>f \<in> set acc. P f"
  shows "\<forall>f \<in> set (row_fields cells sec acc). P f"
  using old new by (auto simp add: row_fields_def Let_def)

lemma parse_table_rows_fields:
  assumes new: "\<And>n d. strip n \<noteq> [] \<Longrightarrow> \<not> is_likely_title (strip n)
                  \<Longrightarrow> P (TemplateField (strip n) d sec)"
  shows "parse_table_rows i rs sec acc = Inr fs \<Longrightarrow> \<forall>f \<in> set acc. P f
           \<Longrightarrow> \<forall>f \<in> set fs. P f"
proof (induction rs arbitrary: i acc)
  case Nil
  then show ?case by simp
next
  case (Cons r rs)
  from Cons.prems(1) obtain acc' where step: "parse_table_row i r sec acc = Inr acc'"
    and rest: "parse_table_rows (Suc i) rs sec acc' = Inr fs"
    by (auto split: sum.splits)
  from step have "acc' = acc \<or> acc' = row_fields r sec acc"
    by (auto simp add: parse_table_row_def Let_def split: if_splits list.splits)
  with Cons.prems(2) have "\<forall>f \<in> set acc'. P f"
    using row_fields_fields [of P sec acc r, OF new] by auto
  with Cons.IH rest show ?case by blast
qed

lemma parse_table_fields:
  assumes new: "\<And>n d. strip n \<noteq> [] \<Longrightarrow> \<not> is_likely_title (strip n)
                  \<Longrightarrow> P (TemplateField (strip n) d sec)"
    and res: "parse_table t sec = Inr fs"
  shows "\<forall>f \<in> set fs. P f"
  using parse_table_rows_fields [of P sec 0 t "[]" fs, OF new] res
  by (simp add: parse_table_def)

lemma table_loop_fields:
  assumes new: "\<And>n d. strip n \<noteq> [] \<Longrightarrow> \<not> is_likely_title (strip n)
                  \<Longrightarrow> P (TemplateField (strip n) d sec)"
  shows "table_loop ts sec acc = Inr fs \<Longrightarrow> \<forall>f \<in> set acc. P f \<Longrightarrow> \<forall>f \<in> set fs. P f"
proof (induction ts arbitrary: acc)
  case Nil
  then show ?case by simp
next
  case (Cons t ts)
  from Cons.prems(1) obtain tf where tf: "parse_table t sec = Inr tf"
    and rest: "table_loop ts sec (acc @ tf) = Inr fs"
    by (auto split: sum.splits)
  from tf have "\<forall>f \<in> set tf. P f" using parse_table_fields [of P sec, OF new] by blast
  with Cons.prems(2) have "\<forall>f \<in> set (acc @ tf). P f" by auto
  with Cons.IH rest show ?case by blast
qed

lemma parse_document_fields:
  assumes new: "\<And>n d s. strip n \<noteq> [] \<Longrightarrow> \<not> is_likely_title (strip n)
                  \<Longrightarrow> P (TemplateField (strip n) d s)"
    and res: "parse_document doc = Inr fs"
  shows "\<forall>f \<in> set fs. P f"
proof -
  have "\<forall>f \<in> set (fst (paragraph_loop (paragraphs doc) ([], []))). P f"
    by (rule paragraph_loop_fields [of P, OF new]) simp_all
  with res show ?thesis
    unfolding parse_document_def Let_def
    using table_loop_fields [of P, OF new] by blast
qed

lemma word_fields_named:
  "parse_document doc = Inr fs \<Longrightarrow> f \<in> set fs \<Longrightarrow> strip (name f) \<noteq> []"
  using parse_document_fields [of "\<lambda>f. strip (name f) \<noteq> []" doc fs]
  by (simp add: name_TemplateField strip_idem)

lemma sample_document_parse: "parse_document sample_document = Inr sample_fields"
  by code_simp

text \<open>
  Claim C4.  No field returned by the Word parser has a name whose lower-case
  form contains one of the denylisted substrings, whether the field comes from a
  paragraph or from a table.
\<close>

theorem word_parser_title_filter:
  "parse_document doc = Inr fs \<Longrightarrow> f \<in> set fs
     \<Longrightarrow> kw \<in> {''template'', ''data extraction'', ''meta-analysis''}
     \<Longrightarrow> \<not> (\<exists>pre suf. lower (name f) = pre @ kw @ suf)"
proof -
  assume res: "parse_document doc = Inr fs" and f: "f \<in> set fs"
    and kw: "kw \<in> {''template'', ''data extraction'', ''meta-analysis''}"
  have "\<forall>f \<in> set fs. \<not> is_likely_title (name f)"
    using parse_document_fields [of "\<lambda>f. \<not> is_likely_title (name f)" doc fs] res
    by (simp add: name_TemplateField strip_idem)
  with f have "\<not> is_likely_title (name f)" by blast
  with kw have "\<not> str_contains kw (lower (name f))"
    by (auto simp add: is_likely_title_def title_keywords_def)
  then show ?thesis by (simp add: str_contains_iff)
qed

text \<open>
  The sample document has a title line of the form of a field and a table row
  whose name holds a denylisted word; neither is among the three fields.
\<close>

theorem word_parser_title_filter_witness:
  "parse_document sample_document = Inr sample_fields
   \<and> sample_fields ! 2 \<in> set sample_fields
   \<and> name (sample_fields ! 2) = ''Dose''
   \<and> \<not> (\<exists>pre suf. lower ''Dose'' = pre @ ''template'' @ suf)"
proof -
  have m: "sample_fields ! 2 \<in> set sample_fields" by (simp add: sample_fields_def)
  have n: "name (sample_fields ! 2) = ''Dose''" by (simp add: sample_fields_def)
  have k: "''template'' \<in> {''template'', ''data extraction'', ''meta-analysis''}" by simp
  have "\<not> (\<exists>pre suf. lower ''Dose'' = pre @ ''template'' @ suf)"
    using word_parser_title_filter [OF sample_document_parse m k] unfolding n .
  with sample_document_parse m n show ?thesis by blast
qed

text \<open>The section that is current after the paragraph pass.\<close>

lemma last_or_default: "(case rev xs of [] \<Rightarrow> d | h # _ \<Rightarrow> h) = (if xs = [] then d else last xs)"
  by (cases xs rule: rev_cases) auto

lemma paragraph_step_section:
  "snd (paragraph_step para st) =
     (if strip para \<noteq> [] \<and> is_section_header (strip para) then strip para else snd st)"
  by (auto simp add: paragraph_step_def Let_def split: option.splits prod.splits)

lemma paragraph_loop_section:
  "snd (paragraph_loop ps st) =
     (case rev (filter is_section_header (filter (\<lambda>t. t \<noteq> []) (map strip ps))) of
        [] \<Rightarrow> snd st
      | h # _ \<Rightarrow> h)"
  unfolding last_or_default
  by (induction ps arbitrary: st) (auto simp add: paragraph_step_section)

lemma strip_last_section_header:
  "strip (last_section_header ps) = last_section_header ps"
proof -
  let ?hs = "filter is_section_header (filter (\<lambda>t. t \<noteq> []) (map strip ps))"
  show ?thesis
  proof (cases "?hs = []")
    case True
    then show ?thesis by (simp add: last_section_header_def strip_Nil)
  next
    case False
    then have "last ?hs \<in> set ?hs" by (rule last_in_set)
    then obtain p where "last ?hs = strip p" by auto
    with False show ?thesis
      by (simp add: last_section_header_def last_or_default strip_idem)
  qed
qed

lemma table_loop_acc:
  "table_loop ts sec acc =
     (case table_loop ts sec [] of Inl e \<Rightarrow> Inl e | Inr r \<Rightarrow> Inr (acc @ r))"
proof (induction ts arbitrary: acc)
  case Nil
  then show ?case by simp
next
  case (Cons t ts)
  show ?case
  proof (cases "parse_table t sec")
    case (Inl e)
    then show ?thesis by simp
  next
    case (Inr tf)
    then show ?thesis
      using Cons.IH [of "acc @ tf"] Cons.IH [of tf]
      by (simp split: sum.splits)
  qed
qed

text \<open>
  Claim C7.  The result of the Word parser is the fields of the paragraph pass
  followed by the fields of the tables, and every field of a table carries the
  section that is current when the paragraph pass ends: the last section header
  of the paragraph stream, or the empty string when there is none.
\<close>

theorem table_fields_last_section:
  "parse_document doc = Inr fs \<Longrightarrow>
     \<exists>tfs. table_loop (tables doc) (last_section_header (paragraphs doc)) [] = Inr tfs
          \<and> fs = fst (paragraph_loop (paragraphs doc) ([], [])) @ tfs
          \<and> (\<forall>f \<in> set tfs. section_of f = last_section_header (paragraphs doc))"
proof -
  assume res: "parse_document doc = Inr fs"
  let ?sec = "last_section_header (paragraphs doc)"
  let ?st = "paragraph_loop (paragraphs doc) ([], [])"
  have sec: "snd ?st = ?sec"
    by (simp add: paragraph_loop_section last_section_header_def split: list.splits)
  from res have "table_loop (tables doc) ?sec (fst ?st) = Inr fs"
    by (simp add: parse_document_def Let_def sec)
  then obtain tfs where tfs: "table_loop (tables doc) ?sec [] = Inr tfs"
    and fs: "fs = fst ?st @ tfs"
    using table_loop_acc [of "tables doc" ?sec "fst ?st"]
    by (auto split: sum.splits)
  have "\<forall>f \<in> set tfs. section_of f = ?sec"
    using table_loop_fields [of "\<lambda>f. section_of f = ?sec" ?sec "tables doc" "[]" tfs] tfs
    by (simp add: section_TemplateField strip_last_section_header)
  with tfs fs show ?thesis by blast
qed

lemma sample_last_section: "last_section_header (paragraphs sample_document) = ''Study Details''"
  by code_simp

lemma sample_table_loop:
  "table_loop (tables sample_document) ''Study Details'' [] =
     Inr [\<lparr>name = ''Dose'', description = ''mg per week'', section_of = ''Study Details''\<rparr>]"
  by code_simp

text \<open>
  In the sample document the table has a row that reads like a header of its
  own; the field below it still carries the last header of the paragraphs.
\<close>

theorem table_fields_last_section_witness:
  "parse_document sample_document = Inr sample_fields
   \<and> last_section_header (paragraphs sample_document) = ''Study Details''
   \<and> table_loop (tables sample_document) ''Study Details'' [] =
       Inr [\<lparr>name = ''Dose'', description = ''mg per week'', section_of = ''Study Details''\<rparr>]
   \<and> section_of \<lparr>name = ''Dose'', description = ''mg per week'',
                  section_of = ''Study Details''\<rparr> = last_section_header (paragraphs sample_document)"
proof -
  obtain tfs where
    t: "table_loop (tables sample_document) (last_section_header (paragraphs sample_document)) []
          = Inr tfs"
    and s: "\<forall>f \<in> set tfs. section_of f = last_section_header (paragraphs sample_document)"
    using table_fields_last_section [OF sample_document_parse] by blast
  from t have "tfs =
      [\<lparr>name = ''Dose'', description = ''mg per week'', section_of = ''Study Details''\<rparr>]"
    by (simp add: sample_last_section sample_table_loop)
  with s have "section_of \<lparr>name = ''Dose'', description = ''mg per week'',
                  section_of = ''Study Details''\<rparr> = last_section_header (paragraphs sample_document)"
    by simp
  with sample_document_parse sample_last_section sample_table_loop show ?thesis by blast
qed

section \<open>The Excel parser\<close>

lemma columns_loop_eq:
  "columns_loop cols sheet_name acc =
     acc @ map (\<lambda>h. TemplateField h [] sheet_name)
             [h. Str h \<leftarrow> cols, \<not> startswith h ''Unnamed'']"
  by (induction cols arbitrary: acc) (auto split: col_label.splits)

lemma sheets_loop_eq:
  "sheets_loop sheets acc =
     acc @ concat (map (\<lambda>(sheet_name, cols). map (\<lambda>h. TemplateField h [] sheet_name)
             [h. Str h \<leftarrow> cols, \<not> startswith h ''Unnamed'']) sheets)"
  by (induction sheets arbitrary: acc) (auto simp add: columns_loop_eq)

lemma placeholder_prefix: "is_placeholder h \<Longrightarrow> startswith h ''Unnamed''"
proof -
  assume "is_placeholder h"
  then have a: "take (length ''Unnamed: '') h = ''Unnamed: ''"
    unfolding is_placeholder_def startswith_def by blast
  have "take (length ''Unnamed'') h
      = take (length ''Unnamed'') (take (length ''Unnamed: '') h)"
    by simp
  also have "\<dots> = take (length ''Unnamed'') ''Unnamed: ''" by (simp only: a)
  also have "\<dots> = ''Unnamed''" by simp
  finally show ?thesis unfolding startswith_def .
qed

lemma kept_headers_cong:
  assumes "\<forall>h. Str h \<in> set cols \<and> startswith h ''Unnamed'' \<longrightarrow> is_placeholder h"
  shows "[h. Str h \<leftarrow> cols, \<not> startswith h ''Unnamed''] = [h. Str h \<leftarrow> cols, \<not> is_placeholder h]"
  using assms
proof (induction cols)
  case Nil
  then show ?case by simp
next
  case (Cons c cols)
  then show ?case
    by (cases c) (auto dest: placeholder_prefix)
qed

text \<open>
  Claim C6, as amended.  The Excel parser returns, sheet after sheet and header
  after header, one field for every string header that does not start with the
  word \<open>Unnamed\<close>, with the (trimmed) header as name, the (trimmed) sheet name
  as section and an empty description; every header that starts with that word
  is skipped, the generated placeholders among them.  So it is the parser of the
  specification on every workbook in which only placeholders start with that
  word.  For sheet S1 with headers A and B and sheet S2 with header C the
  fields are A, B of S1 and C of S2, in that order.
\<close>

theorem parse_workbook_fields:
  "parse_workbook sheets =
     concat (map (\<lambda>(sheet_name, cols). map (\<lambda>h. TemplateField h [] sheet_name)
             [h. Str h \<leftarrow> cols, \<not> startswith h ''Unnamed'']) sheets)
   \<and> (is_placeholder h \<longrightarrow> startswith h ''Unnamed'')
   \<and> ((\<forall>sheet \<in> set sheets. \<forall>h. Str h \<in> set (snd sheet) \<and> startswith h ''Unnamed''
          \<longrightarrow> is_placeholder h)
        \<longrightarrow> parse_workbook sheets = spec_parse_workbook sheets)
   \<and> parse_workbook [(''S1'', [Str ''A'', Str ''B'']), (''S2'', [Str ''C''])] =
       [\<lparr>name = ''A'', description = [], section_of = ''S1''\<rparr>,
        \<lparr>name = ''B'', description = [], section_of = ''S1''\<rparr>,
        \<lparr>name = ''C'', description = [], section_of = ''S2''\<rparr>]"
proof (intro conjI impI)
  show eq: "parse_workbook sheets =
     concat (map (\<lambda>(sheet_name, cols). map (\<lambda>h. TemplateField h [] sheet_name)
             [h. Str h \<leftarrow> cols, \<not> startswith h ''Unnamed'']) sheets)"
    by (simp add: parse_workbook_def sheets_loop_eq)
  show "is_placeholder h \<Longrightarrow> startswith h ''Unnamed''" by (rule placeholder_prefix)
  show "parse_workbook [(''S1'', [Str ''A'', Str ''B'']), (''S2'', [Str ''C''])] =
       [\<lparr>name = ''A'', description = [], section_of = ''S1''\<rparr>,
        \<lparr>name = ''B'', description = [], section_of = ''S1''\<rparr>,
        \<lparr>name = ''C'', description = [], section_of = ''S2''\<rparr>]"
    by code_simp
  assume only: "\<forall>sheet \<in> set sheets. \<forall>h. Str h \<in> set (snd sheet) \<and> startswith h ''Unnamed''
      \<longrightarrow> is_placeholder h"
  have "map (\<lambda>(sheet_name, cols). map (\<lambda>h. TemplateField h [] sheet_name)
             [h. Str h \<leftarrow> cols, \<not> startswith h ''Unnamed'']) sheets
      = map (\<lambda>(sheet_name, cols). map (\<lambda>h. TemplateField h [] sheet_name)
             [h. Str h \<leftarrow> cols, \<not> is_placeholder h]) sheets"
  proof (rule map_cong [OF refl])
    fix sheet assume s: "sheet \<in> set sheets"
    obtain sheet_name cols where sc: "sheet = (sheet_name, cols)" by (cases sheet)
    from only s sc
    have "\<forall>h. Str h \<in> set cols \<and> startswith h ''Unnamed'' \<longrightarrow> is_placeholder h" by auto
    from kept_headers_cong [OF this] sc
    show "(case sheet of (sheet_name, cols) \<Rightarrow> map (\<lambda>h. TemplateField h [] sheet_name)
             [h. Str h \<leftarrow> cols, \<not> startswith h ''Unnamed''])
        = (case sheet of (sheet_name, cols) \<Rightarrow> map (\<lambda>h. TemplateField h [] sheet_name)
             [h. Str h \<leftarrow> cols, \<not> is_placeholder h])"
      by simp
  qed
  with eq show "parse_workbook sheets = spec_parse_workbook sheets"
    by (simp only: spec_parse_workbook_def)
qed

lemma sample_workbook_placeholders:
  "\<forall>sheet \<in> set sample_workbook. \<forall>h. Str h \<in> set (snd sheet) \<and> startswith h ''Unnamed''
      \<longrightarrow> is_placeholder h"
proof -
  have "is_placeholder ''Unnamed: 2''" by code_simp
  moreover have "\<not> startswith ''A'' ''Unnamed''" "\<not> startswith ''B'' ''Unnamed''"
    "\<not> startswith ''C'' ''Unnamed''" by (simp_all add: startswith_def)
  ultimately show ?thesis by (auto simp add: sample_workbook_def)
qed

text \<open>
  The sample workbook has a numeric header and a placeholder header in its first
  sheet; both are skipped, as the specification has it.
\<close>

theorem parse_workbook_fields_witness:
  "is_placeholder ''Unnamed: 2'' \<and> startswith ''Unnamed: 2'' ''Unnamed''
 \<and> parse_workbook sample_workbook = spec_parse_workbook sample_workbook
 \<and> parse_workbook sample_workbook =
     [\<lparr>name = ''A'', description = [], section_of = ''S1''\<rparr>,
      \<lparr>name = ''B'', description = [], section_of = ''S1''\<rparr>,
      \<lparr>name = ''C'', description = [], section_of = ''S2''\<rparr>]"
proof -
  note t = parse_workbook_fields [of sample_workbook "''Unnamed: 2''"]
  have p: "is_placeholder ''Unnamed: 2''" by code_simp
  with t have s: "startswith ''Unnamed: 2'' ''Unnamed''" by blast
  from t sample_workbook_placeholders
  have e: "parse_workbook sample_workbook = spec_parse_workbook sample_workbook" by blast
  have "spec_parse_workbook sample_workbook =
     [\<lparr>name = ''A'', description = [], section_of = ''S1''\<rparr>,
      \<lparr>name = ''B'', description = [], section_of = ''S1''\<rparr>,
      \<lparr>name = ''C'', description = [], section_of = ''S2''\<rparr>]"
    by code_simp
  with p s e show ?thesis by simp
qed

text \<open>
  The claim as it is written fails on a header that an author began with the
  word \<open>Unnamed\<close>: it is a string header and no placeholder, so the
  specification makes it a field, but the parser skips it.
\<close>

theorem excel_unnamed_prefix_dropped:
  "\<not> is_placeholder ''Unnamed thing''
 \<and> parse_workbook [(''S1'', [Str ''Unnamed thing'', Str ''Age''])] =
     [\<lparr>name = ''Age'', description = [], section_of = ''S1''\<rparr>]
 \<and> spec_parse_workbook [(''S1'', [Str ''Unnamed thing'', Str ''Age''])] =
     [\<lparr>name = ''Unnamed thing'', description = [], section_of = ''S1''\<rparr>,
      \<lparr>name = ''Age'', description = [], section_of = ''S1''\<rparr>]
 \<and> parse_workbook [(''S1'', [Str ''Unnamed thing'', Str ''Age''])]
     \<noteq> spec_parse_workbook [(''S1'', [Str ''Unnamed thing'', Str ''Age''])]"
  by code_simp

text \<open>
  Claim C10.  The two passes of the Word parser never emit a field whose name is
  blank (\<open>word_fields_named\<close>), but the Excel parser does: a header cell that
  holds a single space is a string that does not start with \<open>Unnamed\<close>, and the
  field built from it has the empty name.
\<close>

theorem excel_blank_header_field:
  "parse_workbook [(''S1'', [Str '' ''])] =
     [\<lparr>name = [], description = [], section_of = ''S1''\<rparr>]"
  by code_simp

section \<open>The prompt\<close>

lemma bullets_loop_api_eq: "bullets_loop_api fs prompt = prompt @ concat (map spec_bullet fs)"
  by (induction fs arbitrary: prompt) (simp_all add: spec_bullet_def Let_def)

lemma bullets_loop_browser_eq:
  "bullets_loop_browser fs prompt = prompt @ concat (map spec_bullet fs)"
  by (induction fs arbitrary: prompt) (simp_all add: spec_bullet_def)

lemma sections_loop_api_eq:
  "sections_loop_api secs prompt =
     prompt @ concat (map (\<lambda>(s, l). ''--- '' @ s @ '' ---'' @ [newline]
                                      @ concat (map spec_bullet l)) secs)"
  by (induction secs arbitrary: prompt) (auto simp add: bullets_loop_api_eq)

lemma sections_loop_browser_eq:
  "sections_loop_browser secs prompt =
     prompt @ concat (map (\<lambda>(s, l). (''--- '' @ s @ '' ---'' @ [newline]
                                      @ concat (map spec_bullet l)) @ [newline]) secs)"
  by (induction secs arbitrary: prompt) (auto simp add: bullets_loop_browser_eq)

lemma first_occurrences_fresh: "x \<in> set (first_occurrences seen xs) \<Longrightarrow> x \<notin> set seen"
proof (induction xs arbitrary: seen)
  case Nil
  then show ?case by simp
next
  case (Cons a xs)
  show ?case
  proof (cases "a \<in> set seen")
    case True
    with Cons show ?thesis by simp
  next
    case False
    with Cons.prems have "x = a \<or> x \<in> set (first_occurrences (seen @ [a]) xs)" by simp
    then show ?thesis
    proof
      assume "x = a"
      with False show ?thesis by simp
    next
      assume "x \<in> set (first_occurrences (seen @ [a]) xs)"
      from Cons.IH [OF this] show ?thesis by simp
    qed
  qed
qed

lemma dict_append_present:
  "distinct (map fst acc) \<Longrightarrow>
     dict_append k f acc = map (\<lambda>(k', l). (k', if k' = k then l @ [f] else l)) acc"
proof (induction acc)
  case Nil
  then show ?case by simp
next
  case (Cons e acc)
  obtain k' l where e: "e = (k', l)" by (cases e)
  show ?case
  proof (cases "k' = k")
    case True
    with Cons.prems e have "k \<notin> fst ` set acc" by auto
    then have "map (\<lambda>(k', l). (k', if k' = k then l @ [f] else l)) acc = acc"
      by (induction acc) auto
    with True e show ?thesis by simp
  next
    case False
    with Cons e show ?thesis by simp
  qed
qed

lemma dict_append_new:
  "k \<notin> fst ` set acc \<Longrightarrow> dict_append k f (acc @ [(k, l)]) = acc @ [(k, l @ [f])]"
  by (induction acc) auto

lemma group_by_section_eq:
  "distinct (map fst acc) \<Longrightarrow>
     group_by_section fs acc =
       map (\<lambda>(k, l). (k, l @ filter (\<lambda>f. spec_label f = k) fs)) acc
       @ map (\<lambda>k. (k, filter (\<lambda>f. spec_label f = k) fs))
           (first_occurrences (map fst acc) (map spec_label fs))"
proof (induction fs arbitrary: acc)
  case Nil
  then show ?case by simp
next
  case (Cons f fs)
  let ?k = "spec_label f"
  have key: "(if section_of f \<noteq> [] then section_of f else ''General'') = ?k"
    by (simp add: spec_label_def)
  show ?case
  proof (cases "?k \<in> set (map fst acc)")
    case True
    let ?acc = "map (\<lambda>(k', l). (k', if k' = ?k then l @ [f] else l)) acc"
    have keys: "map fst ?acc = map fst acc" by (induction acc) auto
    have step: "group_by_section (f # fs) acc = group_by_section fs ?acc"
      using True Cons.prems by (simp add: key Let_def dict_append_present)
    have fresh: "\<And>k. k \<in> set (first_occurrences (map fst acc) (map spec_label fs)) \<Longrightarrow> k \<noteq> ?k"
      using True first_occurrences_fresh by blast
    have tail: "map (\<lambda>k. (k, filter (\<lambda>f. spec_label f = k) (f # fs)))
                  (first_occurrences (map fst acc) (map spec_label fs))
              = map (\<lambda>k. (k, filter (\<lambda>f. spec_label f = k) fs))
                  (first_occurrences (map fst acc) (map spec_label fs))"
      using fresh by (intro map_cong) auto
    have head: "map (\<lambda>(k, l). (k, l @ filter (\<lambda>f. spec_label f = k) fs)) ?acc
              = map (\<lambda>(k, l). (k, l @ filter (\<lambda>f. spec_label f = k) (f # fs))) acc"
      by (induction acc) auto
    from Cons.prems have "distinct (map fst ?acc)" by (simp only: keys)
    from Cons.IH [OF this] show ?thesis
      using True by (simp only: step keys head tail list.map first_occurrences.simps if_True)
  next
    case False
    let ?acc = "acc @ [(?k, [f])]"
    have step: "group_by_section (f # fs) acc = group_by_section fs ?acc"
      using False dict_append_new [of ?k acc f "[]"] by (simp add: key Let_def)
    have d: "distinct (map fst ?acc)" using False Cons.prems by simp
    have fresh: "\<And>k. k \<in> set (first_occurrences (map fst acc @ [?k]) (map spec_label fs))
                  \<Longrightarrow> k \<noteq> ?k"
      using first_occurrences_fresh by fastforce
    have tail: "map (\<lambda>k. (k, filter (\<lambda>f. spec_label f = k) (f # fs)))
                  (first_occurrences (map fst acc @ [?k]) (map spec_label fs))
              = map (\<lambda>k. (k, filter (\<lambda>f. spec_label f = k) fs))
                  (first_occurrences (map fst acc @ [?k]) (map spec_label fs))"
      using fresh by (intro map_cong) auto
    have head: "map (\<lambda>(k, l). (k, l @ filter (\<lambda>f. spec_label f = k) (f # fs))) acc
              = map (\<lambda>(k, l). (k, l @ filter (\<lambda>f. spec_label f = k) fs)) acc"
      using False by (intro map_cong) force+
    have occ: "first_occurrences (map fst acc) (map spec_label (f # fs))
              = ?k # first_occurrences (map fst acc @ [?k]) (map spec_label fs)"
      using False by simp
    have rhs: "map (\<lambda>(k, l). (k, l @ filter (\<lambda>f. spec_label f = k) (f # fs))) acc
          @ map (\<lambda>k. (k, filter (\<lambda>f. spec_label f = k) (f # fs)))
              (first_occurrences (map fst acc) (map spec_label (f # fs)))
        = map (\<lambda>(k, l). (k, l @ filter (\<lambda>f. spec_label f = k) fs)) acc
          @ (?k, f # filter (\<lambda>g. spec_label g = ?k) fs)
          # map (\<lambda>k. (k, filter (\<lambda>f. spec_label f = k) fs))
              (first_occurrences (map fst acc @ [?k]) (map spec_label fs))"
    proof -
      have "\<And>b. (?k, b) \<notin> set acc" using False by force
      with False fresh show ?thesis by auto
    qed
    have "group_by_section fs ?acc
        = map (\<lambda>(k, l). (k, l @ filter (\<lambda>f. spec_label f = k) fs)) acc
          @ (?k, f # filter (\<lambda>g. spec_label g = ?k) fs)
          # map (\<lambda>k. (k, filter (\<lambda>f. spec_label f = k) fs))
              (first_occurrences (map fst acc @ [?k]) (map spec_label fs))"
      using Cons.IH [OF d] by simp
    with step rhs show ?thesis by (simp only:)
  qed
qed

lemma group_by_section_spec:
  "group_by_section fs [] =
     map (\<lambda>k. (k, filter (\<lambda>f. spec_label f = k) fs)) (spec_sections fs)"
  using group_by_section_eq [of "[]" fs] by (simp add: spec_sections_def)

text \<open>
  Claim C9.  The prompt is a function of the loaded field list alone: two
  states of the globals that hold the same field list give the same prompt,
  in either front end.  The prompt is the preamble, then for each distinct
  section label in first-occurrence order (the empty label read as General) a
  banner and one bullet per field of that section in the original order (the
  name, followed by a colon and the description unless that is empty), then the
  closing instruction; the browser front end puts a blank line after each
  section.
\<close>

theorem create_prompt_deterministic:
  "TEMPLATE_FIELDS g = Some fs \<Longrightarrow> TEMPLATE_FIELDS g' = Some fs \<Longrightarrow>
     create_prompt_api g = create_prompt_api g'
   \<and> create_prompt_browser g = create_prompt_browser g'
   \<and> create_prompt_api g =
       Inr (api_preamble @ concat (map (spec_section_block fs) (spec_sections fs)) @ api_closing)
   \<and> create_prompt_browser g =
       Inr (browser_preamble
            @ concat (map (\<lambda>s. spec_section_block fs s @ [newline]) (spec_sections fs))
            @ browser_closing)"
proof -
  assume g: "TEMPLATE_FIELDS g = Some fs" and g': "TEMPLATE_FIELDS g' = Some fs"
  have block: "spec_section_block fs =
      (\<lambda>s. ''--- '' @ s @ '' ---'' @ [newline]
             @ concat (map spec_bullet (filter (\<lambda>f. spec_label f = s) fs)))"
    by (rule ext) (simp add: spec_section_block_def)
  have api: "\<And>h. TEMPLATE_FIELDS h = Some fs \<Longrightarrow> create_prompt_api h =
       Inr (api_preamble @ concat (map (spec_section_block fs) (spec_sections fs)) @ api_closing)"
    by (simp add: create_prompt_api_def Let_def sections_loop_api_eq group_by_section_spec
        block comp_def)
  have browser: "\<And>h. TEMPLATE_FIELDS h = Some fs \<Longrightarrow> create_prompt_browser h =
       Inr (browser_preamble
            @ concat (map (\<lambda>s. spec_section_block fs s @ [newline]) (spec_sections fs))
            @ browser_closing)"
    by (simp add: create_prompt_browser_def Let_def sections_loop_browser_eq
        group_by_section_spec block comp_def)
  from api [OF g] api [OF g'] browser [OF g] browser [OF g'] show ?thesis by simp
qed

text \<open>
  Two states with the sample fields and different column lists; the sections
  are rendered in the order Study Details, General.
\<close>

theorem create_prompt_deterministic_witness:
  "create_prompt_api \<lparr>TEMPLATE_FIELDS = Some (sample_fields @ sample_general), ALL_COLUMNS = None\<rparr>
     = create_prompt_api \<lparr>TEMPLATE_FIELDS = Some (sample_fields @ sample_general),
                          ALL_COLUMNS = Some [''Author'']\<rparr>
   \<and> spec_sections (sample_fields @ sample_general) = [''Study Details'', ''General'']
   \<and> spec_section_block (sample_fields @ sample_general) ''General''
       = ''--- General ---'' @ [newline] @ ''- Notes'' @ [newline] @ ''- Dose: again'' @ [newline]"
proof -
  let ?g = "\<lparr>TEMPLATE_FIELDS = Some (sample_fields @ sample_general), ALL_COLUMNS = None\<rparr>"
  let ?g' = "\<lparr>TEMPLATE_FIELDS = Some (sample_fields @ sample_general),
              ALL_COLUMNS = Some [''Author'']\<rparr>"
  have a: "TEMPLATE_FIELDS ?g = Some (sample_fields @ sample_general)" by simp
  have b: "TEMPLATE_FIELDS ?g' = Some (sample_fields @ sample_general)" by simp
  have c: "spec_sections (sample_fields @ sample_general) = [''Study Details'', ''General'']"
    by code_simp
  have d: "spec_section_block (sample_fields @ sample_general) ''General''
       = ''--- General ---'' @ [newline] @ ''- Notes'' @ [newline] @ ''- Dose: again'' @ [newline]"
    by code_simp
  from create_prompt_deterministic [OF a b] c d show ?thesis by blast
qed

section \<open>Response cleaning\<close>

lemma find_from_eq:
  "find_from c s i =
     (if c \<in> set s then i + int (length (takeWhile (\<lambda>x. x \<noteq> c) s)) else -1)"
  by (induction s arbitrary: i) auto

lemma find_absent: "find text c = -1 \<longleftrightarrow> c \<notin> set text"
  by (simp add: find_def find_from_eq)

lemma drop_after_find:
  "c \<in> set text \<Longrightarrow>
     drop (nat (find text c + 1)) text = drop 1 (dropWhile (\<lambda>x. x \<noteq> c) text)"
proof -
  assume "c \<in> set text"
  then have "nat (find text c + 1) = 1 + length (takeWhile (\<lambda>x. x \<noteq> c) text)"
    by (simp add: find_def find_from_eq)
  then show ?thesis
    by (simp add: dropWhile_eq_drop del: drop_Suc)
qed

lemma clean_fenced_example: "clean_json_string fenced_example = json_example"
  by code_simp

text \<open>
  Claim C5, as amended.  \<open>clean_json_string\<close> trims the text; when the trimmed
  text contains a line break or does not begin with the fence, it is the cleaning
  of the specification (drop the first line of a fenced text, then a trailing
  fence, and trim again); a fenced text of a single line keeps its first line and
  only loses a trailing fence.  The fenced example cleans to the JSON text inside
  it, which \<open>json.loads\<close> parses to the record that then receives the source
  identifier; and a text whose cleaning \<open>json.loads\<close> rejects yields \<open>None\<close>.
\<close>

theorem clean_json_string_refines:
  "(\<not> startswith (strip s) fence \<or> newline \<in> set (strip s)
      \<longrightarrow> clean_json_string s = spec_clean s)
 \<and> (startswith (strip s) fence \<and> newline \<notin> set (strip s)
      \<longrightarrow> clean_json_string s =
            strip (if endswith (strip s) fence
                   then take (length (strip s) - 3) (strip s) else strip s))
 \<and> clean_json_string fenced_example = json_example
 \<and> (json_loads json_example = Inr (JDict [(''a'', JInt 1)])
      \<longrightarrow> parse_response json_loads base fenced_example
            = Some [(''a'', JInt 1), (''Source File'', JStr base)])
 \<and> (json_loads (clean_json_string s) = Inl JSONDecodeError
      \<longrightarrow> parse_response json_loads base s = None)"
proof (intro conjI impI)
  assume "\<not> startswith (strip s) fence \<or> newline \<in> set (strip s)"
  then show "clean_json_string s = spec_clean s"
    by (auto simp add: clean_json_string_def spec_clean_def Let_def drop_first_line_def
        find_absent drop_after_find)
next
  assume "startswith (strip s) fence \<and> newline \<notin> set (strip s)"
  then show "clean_json_string s =
      strip (if endswith (strip s) fence then take (length (strip s) - 3) (strip s) else strip s)"
    by (simp add: clean_json_string_def Let_def find_absent)
next
  show "clean_json_string fenced_example = json_example" by (rule clean_fenced_example)
next
  assume "json_loads json_example = Inr (JDict [(''a'', JInt 1)])"
  then show "parse_response json_loads base fenced_example
      = Some [(''a'', JInt 1), (''Source File'', JStr base)]"
    by (simp add: parse_response_def parse_response_body_def clean_fenced_example)
next
  assume "json_loads (clean_json_string s) = Inl JSONDecodeError"
  then show "parse_response json_loads base s = None"
    by (simp add: parse_response_def parse_response_body_def)
qed

lemma single_line_strip: "strip (fence @ ''abc'') = fence @ ''abc''"
  by code_simp

theorem clean_json_string_refines_witness:
  "clean_json_string fenced_example = spec_clean fenced_example
 \<and> clean_json_string (fence @ ''abc'') = fence @ ''abc''
 \<and> parse_response sample_loads ''doc1.pdf'' fenced_example
      = Some [(''a'', JInt 1), (''Source File'', JStr ''doc1.pdf'')]
 \<and> parse_response sample_loads ''doc1.pdf'' ''not json at all'' = None"
proof -
  have a: "\<not> startswith (strip fenced_example) fence \<or> newline \<in> set (strip fenced_example)"
    by code_simp
  have b: "startswith (strip (fence @ ''abc'')) fence \<and> newline \<notin> set (strip (fence @ ''abc''))"
    by code_simp
  have c: "sample_loads json_example = Inr (JDict [(''a'', JInt 1)])"
    by (simp add: sample_loads_def)
  have d: "sample_loads (clean_json_string ''not json at all'') = Inl JSONDecodeError"
    by code_simp
  have e: "strip (if endswith (strip (fence @ ''abc'')) fence
                  then take (length (strip (fence @ ''abc'')) - 3) (strip (fence @ ''abc''))
                  else strip (fence @ ''abc'')) = fence @ ''abc''"
    by code_simp
  from clean_json_string_refines [of fenced_example sample_loads "''doc1.pdf''"] a c
  have 1: "clean_json_string fenced_example = spec_clean fenced_example"
    and 3: "parse_response sample_loads ''doc1.pdf'' fenced_example
      = Some [(''a'', JInt 1), (''Source File'', JStr ''doc1.pdf'')]"
    by blast+
  from clean_json_string_refines [of "fence @ ''abc''" sample_loads "''doc1.pdf''"] b e
  have 2: "clean_json_string (fence @ ''abc'') = fence @ ''abc''" by simp
  from clean_json_string_refines [of "''not json at all''" sample_loads "''doc1.pdf''"] d
  have 4: "parse_response sample_loads ''doc1.pdf'' ''not json at all'' = None" by blast
  from 1 2 3 4 show ?thesis by blast
qed

text \<open>
  The claim as it is written fails on a fenced text of a single line: dropping
  its first line leaves nothing, while the code returns the text unchanged.
\<close>

theorem clean_json_string_single_line:
  "clean_json_string (fence @ ''abc'') = fence @ ''abc''
 \<and> spec_clean (fence @ ''abc'') = []
 \<and> clean_json_string (fence @ ''abc'') \<noteq> spec_clean (fence @ ''abc'')"
  by code_simp


section \<open>Record reconciliation\<close>

lemma first_occurrences_set: "set (first_occurrences seen xs) = set xs - set seen"
  by (induction xs arbitrary: seen) auto

lemma first_occurrences_distinct: "distinct (first_occurrences seen xs)"
  by (induction xs arbitrary: seen) (auto simp add: first_occurrences_set)

lemma ensure_columns_single:
  "ensure_columns cols \<lparr>columns = ks, rows = [vs]\<rparr> =
     \<lparr>columns = ks @ first_occurrences ks cols,
      rows = [vs @ replicate (length (first_occurrences ks cols)) JNull]\<rparr>"
proof (induction cols arbitrary: ks vs)
  case Nil
  then show ?case by simp
next
  case (Cons c cols)
  show ?case
  proof (cases "c \<in> set ks")
    case True
    with Cons.IH [of ks vs] show ?thesis by simp
  next
    case False
    with Cons.IH [of "ks @ [c]" "vs @ [JNull]"] show ?thesis
      by (simp add: set_column_None_def replicate_app_Cons_same)
  qed
qed

lemma filter_single: "distinct xs \<Longrightarrow> c \<in> set xs \<Longrightarrow> filter (\<lambda>k. k = c) xs = [c]"
  by (induction xs) (auto simp add: filter_empty_conv)

lemma cells_of_distinct:
  "distinct (map fst al) \<Longrightarrow>
     map snd (filter (\<lambda>(k, v). k = c) al) = (case map_of al c of Some v \<Rightarrow> [v] | None \<Rightarrow> [])"
proof (induction al)
  case Nil
  then show ?case by simp
next
  case (Cons e al)
  obtain k v where e: "e = (k, v)" by (cases e)
  show ?case
  proof (cases "k = c")
    case True
    with Cons.prems e have "c \<notin> fst ` set al" by auto
    then have "filter (\<lambda>(k, v). k = c) al = []"
      by (force simp add: filter_empty_conv)
    with True e show ?thesis by simp
  next
    case False
    with Cons e show ?thesis by simp
  qed
qed

lemma map_of_nulls:
  "c \<in> set new \<Longrightarrow> map_of (zip new (replicate (length new) JNull)) c = Some JNull"
  by (induction new) auto

lemma reconcile_general:
  assumes d: "distinct (map fst dat)" and src: "map_of dat ''Source File'' = Some src"
  shows "reconcile all_columns dat =
     Inr \<lparr>columns = ''Source File'' # all_columns,
          rows = [src # map (\<lambda>c. case map_of dat c of Some v \<Rightarrow> v | None \<Rightarrow> JNull)
                          all_columns]\<rparr>"
proof -
  let ?ks = "map fst dat" and ?vs = "map snd dat"
  let ?new = "first_occurrences ?ks all_columns"
  let ?nulls = "replicate (length ?new) (JNull :: 'a json)"
  let ?cols = "''Source File'' # all_columns"
  let ?al = "dat @ zip ?new ?nulls"
  let ?val = "\<lambda>c. case map_of dat c of Some v \<Rightarrow> v | None \<Rightarrow> JNull"
  have df: "ensure_columns all_columns (DataFrame dat) =
      \<lparr>columns = ?ks @ ?new, rows = [?vs @ ?nulls]\<rparr>"
    by (simp add: DataFrame_def ensure_columns_single)
  have src_in: "''Source File'' \<in> set ?ks"
    using src by (metis map_of_eq_None_iff option.distinct(1) set_map)
  have all_in: "set all_columns \<subseteq> set (?ks @ ?new)"
    by (auto simp add: first_occurrences_set)
  then have keep: "filter (\<lambda>c. c \<in> set (?ks @ ?new)) all_columns = all_columns"
    by (auto simp add: filter_id_conv)
  have cols_in: "set ?cols \<subseteq> set (?ks @ ?new)" using src_in all_in by auto
  then have none_missing: "filter (\<lambda>c. c \<notin> set (?ks @ ?new)) ?cols = []"
    by (auto simp add: filter_empty_conv)
  have dist: "distinct (?ks @ ?new)"
    using d by (auto simp add: first_occurrences_distinct first_occurrences_set)
  have zip: "zip (?ks @ ?new) (?vs @ ?nulls) = ?al"
    by (simp add: zip_map_fst_snd)
  have keys_al: "map fst ?al = ?ks @ ?new" by simp
  have labels: "concat (map (\<lambda>c. filter (\<lambda>k. k = c) (?ks @ ?new)) ?cols) = ?cols"
  proof -
    have "map (\<lambda>c. filter (\<lambda>k. k = c) (?ks @ ?new)) ?cols = map (\<lambda>c. [c]) ?cols"
      using cols_in dist by (intro map_cong refl filter_single) auto
    then show ?thesis by (simp only: concat_map_singleton list.map_ident)
  qed
  have value_of: "\<And>c. c \<in> set ?cols \<Longrightarrow> cells_of (?ks @ ?new) (?vs @ ?nulls) c = [?val c]"
  proof -
    fix c assume c: "c \<in> set ?cols"
    have "cells_of (?ks @ ?new) (?vs @ ?nulls) c
        = (case map_of ?al c of Some v \<Rightarrow> [v] | None \<Rightarrow> [])"
      unfolding cells_of_def zip using dist keys_al by (intro cells_of_distinct) simp
    moreover have "map_of ?al c = Some (?val c)"
    proof (cases "map_of dat c")
      case None
      then have "c \<notin> set ?ks" by (simp add: map_of_eq_None_iff)
      with c cols_in have "c \<in> set ?new" by auto
      with None show ?thesis by (simp add: map_add_def map_of_nulls)
    next
      case (Some v)
      then show ?thesis by (simp add: map_add_def)
    qed
    ultimately show "cells_of (?ks @ ?new) (?vs @ ?nulls) c = [?val c]" by simp
  qed
  have cells: "concat (map (cells_of (?ks @ ?new) (?vs @ ?nulls)) ?cols) = map ?val ?cols"
  proof -
    have "map (cells_of (?ks @ ?new) (?vs @ ?nulls)) ?cols = map (\<lambda>c. [?val c]) ?cols"
      using value_of by (intro map_cong refl) blast
    then show ?thesis by (simp only: concat_map_singleton)
  qed
  have "?val ''Source File'' = src" using src by simp
  with cells have row: "concat (map (cells_of (?ks @ ?new) (?vs @ ?nulls)) ?cols)
      = src # map ?val all_columns" by simp
  show ?thesis
    unfolding reconcile_def Let_def df
    using labels row none_missing keep by (simp add: select_columns_def)
qed

text \<open>
  Claim C2.  For a raw record (a dictionary, so with distinct keys) that holds
  the source identifier, the reconciled row has the columns Source File followed
  by the canonical fields in their order; its cells are the identifier and, for
  each canonical field, the value of the record or null when the record has no
  such key; keys of the record outside the canonical list do not appear.  For
  the canonical fields X, Y, Z and the record with X = "1", W = "ignored" and the
  source doc1 the row is doc1, "1", null, null.
\<close>

theorem reconcile_row:
  "(distinct (map fst dat) \<and> map_of dat ''Source File'' = Some src \<longrightarrow>
      reconcile all_columns dat =
        Inr \<lparr>columns = ''Source File'' # all_columns,
             rows = [src # map (\<lambda>c. case map_of dat c of Some v \<Rightarrow> v | None \<Rightarrow> JNull)
                             all_columns]\<rparr>)
 \<and> reconcile [''X'', ''Y'', ''Z'']
      [(''X'', JStr ''1''), (''W'', JStr ''ignored''), (''Source File'', JStr ''doc1'')]
    = Inr \<lparr>columns = [''Source File'', ''X'', ''Y'', ''Z''],
           rows = [[JStr ''doc1'', JStr ''1'', JNull, JNull]]\<rparr>"
proof (intro conjI impI)
  assume "distinct (map fst dat) \<and> map_of dat ''Source File'' = Some src"
  then show "reconcile all_columns dat =
        Inr \<lparr>columns = ''Source File'' # all_columns,
             rows = [src # map (\<lambda>c. case map_of dat c of Some v \<Rightarrow> v | None \<Rightarrow> JNull)
                             all_columns]\<rparr>"
    using reconcile_general by blast
next
  have "distinct (map fst [(''X'', JStr ''1''), (''W'', JStr ''ignored''),
      (''Source File'', JStr ''doc1'')])" by simp
  moreover have "map_of [(''X'', JStr ''1''), (''W'', JStr ''ignored''),
      (''Source File'', JStr ''doc1'')] ''Source File'' = Some (JStr ''doc1'')" by simp
  ultimately show "reconcile [''X'', ''Y'', ''Z'']
      [(''X'', JStr ''1''), (''W'', JStr ''ignored''), (''Source File'', JStr ''doc1'')]
    = Inr \<lparr>columns = [''Source File'', ''X'', ''Y'', ''Z''],
           rows = [[JStr ''doc1'', JStr ''1'', JNull, JNull]]\<rparr>"
    by (simp add: reconcile_general)
qed

text \<open>
  A record whose canonical list repeats a field and names a field the record
  lacks: the repeated column appears twice and the missing one is null.
\<close>

theorem reconcile_row_witness:
  "reconcile [''X'', ''Y'', ''X''] sample_record =
     Inr \<lparr>columns = [''Source File'', ''X'', ''Y'', ''X''],
          rows = [[JStr ''doc1'', JStr ''1'', JNull, JStr ''1'']]\<rparr>"
proof -
  have d: "distinct (map fst sample_record)
      \<and> map_of sample_record ''Source File'' = Some (JStr ''doc1'')"
    by (simp add: sample_record_def)
  from reconcile_row [of sample_record "JStr ''doc1''" "[''X'', ''Y'', ''X'']"] d
  have "reconcile [''X'', ''Y'', ''X''] sample_record =
        Inr \<lparr>columns = ''Source File'' # [''X'', ''Y'', ''X''],
             rows = [JStr ''doc1'' # map (\<lambda>c. case map_of sample_record c of Some v \<Rightarrow> v
                                                | None \<Rightarrow> JNull) [''X'', ''Y'', ''X'']]\<rparr>"
    by blast
  then show ?thesis by (simp add: sample_record_def)
qed

section \<open>Appending to the persisted table\<close>
















end
